theory Spec2Isabelle
  imports Main
begin

section \<open>Text values\<close>

text \<open>
  Python text is modelled as \<^typ>\<open>string\<close>; a \<^typ>\<open>char\<close> stands for the code point
  of the same number, so the model covers text over the code points 0 to 255.

  \<open>isspace\<close> is the set of characters that \<^verbatim>\<open>str.strip()\<close> removes in that range:
  tab, line feed, vertical tab, form feed, carriage return, the four separators
  28 to 31, the blank, NEL (133) and the no-break space (160).
\<close>

definition isspace :: "char \<Rightarrow> bool" where
  "isspace c = (of_char c \<in> set [9, 10, 11, 12, 13, 28, 29, 30, 31, 32, 133, 160 :: nat])"

definition strip :: "string \<Rightarrow> string" where
  "strip s = rev (dropWhile isspace (rev (dropWhile isspace s)))"

text \<open>
  \<^verbatim>\<open>int(text)\<close> in base ten: blanks around the number are skipped, then an optional
  sign, then decimal digits, where a single underscore may stand between two digits.
  The blanks that \<^verbatim>\<open>int\<close> skips are fewer than those of \<^verbatim>\<open>strip\<close>: the separators
  28 to 31 are not among them. \<open>None\<close> stands for the \<^verbatim>\<open>ValueError\<close>.

  \<^verbatim>\<open>int\<close> also refuses a text with more decimal digits than the interpreter's limit,
  which is 4300 unless the interpreter is configured otherwise. The limit counts the
  digits alone, leading zeros among them; sign, underscores and blanks do not count.
\<close>

definition max_str_digits :: nat where
  "max_str_digits = 4300"

definition int_isspace :: "char \<Rightarrow> bool" where
  "int_isspace c = (of_char c \<in> set [9, 10, 11, 12, 13, 32, 133, 160 :: nat])"

definition isdigit :: "char \<Rightarrow> bool" where
  "isdigit c = ((48::nat) \<le> of_char c \<and> of_char c \<le> (57::nat))"

definition digit_value :: "char \<Rightarrow> int" where
  "digit_value c = int (of_char c) - 48"

fun scan_digits :: "int \<Rightarrow> string \<Rightarrow> int option" where
  "scan_digits acc [] = Some acc"
| "scan_digits acc [c] =
     (if isdigit c then Some (10 * acc + digit_value c) else None)"
| "scan_digits acc (c # d # cs) =
     (if isdigit c then scan_digits (10 * acc + digit_value c) (d # cs)
      else if c = CHR ''_'' \<and> isdigit d then scan_digits (10 * acc + digit_value d) cs
      else None)"

definition parse_digits :: "string \<Rightarrow> int option" where
  "parse_digits s =
     (case s of
        [] \<Rightarrow> None
      | c # cs \<Rightarrow> if isdigit c then scan_digits (digit_value c) cs else None)"

definition py_int :: "string \<Rightarrow> int option" where
  "py_int s =
     (let t = rev (dropWhile int_isspace (rev (dropWhile int_isspace s)))
      in if max_str_digits < length (filter isdigit t) then None
         else case t of
                [] \<Rightarrow> None
              | c # cs \<Rightarrow>
                  if c = CHR ''-'' then map_option uminus (parse_digits cs)
                  else if c = CHR ''+'' then parse_digits cs
                  else parse_digits t)"

text \<open>\<^verbatim>\<open>str(n)\<close> for an integer: its decimal form, with a minus sign when negative.\<close>

definition digit_char :: "nat \<Rightarrow> char" where
  "digit_char n = ''0123456789'' ! n"

function str_nat :: "nat \<Rightarrow> string" where
  "str_nat n = (if n < 10 then [digit_char n] else str_nat (n div 10) @ [digit_char (n mod 10)])"
  by pat_completeness auto
termination
  by (relation "measure (\<lambda>n. n)") auto

declare str_nat.simps [simp del]

definition str_int :: "int \<Rightarrow> string" where
  "str_int i = (if i < 0 then CHR ''-'' # str_nat (nat (- i)) else str_nat (nat i))"

section \<open>Data model\<close>

text \<open>
  The dataclass \<^verbatim>\<open>InventoryItem\<close> declares \<^verbatim>\<open>quantity: int\<close>, but a dataclass does
  not check its fields: \<^verbatim>\<open>add_item\<close> stores an integer there, and the recovery path of
  \<^verbatim>\<open>delete_selected\<close> stores the text of a table cell. \<open>pyval\<close> holds either.
\<close>

datatype pyval = IntV int | StrV string

fun py_str :: "pyval \<Rightarrow> string" where
  "py_str (IntV i) = str_int i"
| "py_str (StrV s) = s"

record InventoryItem =
  name :: string
  quantity :: pyval
  location :: string
  "notes" :: string

text \<open>
  A row of the table widget: the four cell texts it was inserted with (the widget keeps
  every value as text) and whether the row is selected.
\<close>

type_synonym cells = "string \<times> string \<times> string \<times> string"

record tree_row =
  cells :: cells
  selected :: bool

text \<open>
  The window: the ledger \<^verbatim>\<open>self._items\<close>, the rows of \<^verbatim>\<open>self.tree\<close> in display order,
  and the four form variables.
\<close>

record app =
  items :: "InventoryItem list"
  tree :: "tree_row list"
  name_var :: string
  quantity_var :: string
  location_var :: string
  notes_var :: string

text \<open>
  What a handler shows or lets escape:
  \<^item> \<open>Quiet\<close>: the handler returns without a dialog;
  \<^item> \<open>EmptyName\<close>: the warning that asks for an article name;
  \<^item> \<open>InvalidQuantity\<close>: the warning that the quantity must be a number of at least 1;
  \<^item> \<open>NoSelection\<close>: the notice that no entry is selected;
  \<^item> \<open>EmptyLedger\<close>: the notice that there is nothing to save;
  \<^item> \<open>Saved p\<close>: the notice that the file \<open>p\<close> was saved;
  \<^item> \<open>IOError\<close>: an \<^verbatim>\<open>OSError\<close> raised while opening or writing the file, which the
    handler does not catch.
\<close>

datatype signal =
    Quiet
  | EmptyName
  | InvalidQuantity
  | NoSelection
  | EmptyLedger
  | Saved string
  | IOError

text \<open>The state after \<^verbatim>\<open>__init__\<close>: no items, no rows, quantity field preset to 1.\<close>

definition init :: app where
  "init = \<lparr>items = [], tree = [], name_var = [], quantity_var = ''1'',
           location_var = [], notes_var = []\<rparr>"

section \<open>Adding\<close>

definition item_values :: "InventoryItem \<Rightarrow> cells" where
  "item_values item = (name item, py_str (quantity item), location item, notes item)"

definition append_to_table :: "app \<Rightarrow> InventoryItem \<Rightarrow> app" where
  "append_to_table s item =
     s\<lparr>tree := tree s @ [\<lparr>cells = item_values item, selected = False\<rparr>]\<rparr>"

definition reset_form :: "app \<Rightarrow> app" where
  "reset_form s = s\<lparr>name_var := [], quantity_var := ''1'', location_var := [], notes_var := []\<rparr>"

text \<open>
  The \<^verbatim>\<open>try\<close> block of \<^verbatim>\<open>add_item\<close>: the \<^verbatim>\<open>ValueError\<close> of \<^verbatim>\<open>int\<close> and the one raised
  for a quantity below 1 reach the same handler.
\<close>

definition read_quantity :: "string \<Rightarrow> int option" where
  "read_quantity txt =
     (case py_int txt of
        None \<Rightarrow> None
      | Some q \<Rightarrow> if q < 1 then None else Some q)"

definition add_item :: "app \<Rightarrow> app \<times> signal" where
  "add_item s =
     (let nm = strip (name_var s) in
      if nm = [] then (s, EmptyName)
      else case read_quantity (quantity_var s) of
             None \<Rightarrow> (s, InvalidQuantity)
           | Some q \<Rightarrow>
               let item = \<lparr>name = nm, quantity = IntV q,
                            location = strip (location_var s),
                            notes = strip (notes_var s)\<rparr>
               in (reset_form (append_to_table (s\<lparr>items := items s @ [item]\<rparr>) item), Quiet))"

section \<open>Deleting and clearing\<close>

text \<open>
  \<^verbatim>\<open>tree.selection()\<close> lists the selected rows in display order; the handler takes the
  first and asks the widget for its position.
\<close>

fun first_selected :: "tree_row list \<Rightarrow> nat option" where
  "first_selected [] = None"
| "first_selected (r # rs) =
     (if selected r then Some 0 else map_option Suc (first_selected rs))"

definition remove_at :: "nat \<Rightarrow> 'a list \<Rightarrow> 'a list" where
  "remove_at i xs = take i xs @ drop (Suc i) xs"

definition item_of_cells :: "cells \<Rightarrow> InventoryItem" where
  "item_of_cells v =
     (case v of (a, b, c, d) \<Rightarrow> \<lparr>name = a, quantity = StrV b, location = c, notes = d\<rparr>)"

text \<open>
  \<^verbatim>\<open>del self._items[index]\<close> raises \<^verbatim>\<open>IndexError\<close> exactly when the index, which is
  never negative, is not below the length of the list; the handler then rebuilds the
  list from the rows left in the table.
\<close>

definition delete_selected :: "app \<Rightarrow> app \<times> signal" where
  "delete_selected s =
     (case first_selected (tree s) of
        None \<Rightarrow> (s, NoSelection)
      | Some index \<Rightarrow>
          let rows = remove_at index (tree s) in
          if index < length (items s)
          then (s\<lparr>tree := rows, items := remove_at index (items s)\<rparr>, Quiet)
          else (s\<lparr>tree := rows, items := map (\<lambda>r. item_of_cells (cells r)) rows\<rparr>, Quiet))"

text \<open>\<open>confirmed\<close> is the answer to the yes/no question of \<^verbatim>\<open>clear_items\<close>.\<close>

definition clear_items :: "app \<Rightarrow> bool \<Rightarrow> app" where
  "clear_items s confirmed = (if confirmed then s\<lparr>tree := [], items := []\<rparr> else s)"

section \<open>Exporting\<close>

text \<open>
  The \<^verbatim>\<open>csv\<close> writer in its default dialect: fields separated by a comma, a field
  enclosed in double quotes exactly when it holds a comma, a double quote, a carriage
  return or a line feed, a double quote inside such a field written twice, and every
  record ended by carriage return and line feed. A record that is a single empty field
  is written as a pair of double quotes.
\<close>

definition csv_special :: "char \<Rightarrow> bool" where
  "csv_special c = (c = CHR '','' \<or> c = CHR 0x22 \<or> c = CHR 0x0D \<or> c = CHR 0x0A)"

definition csv_field :: "string \<Rightarrow> string" where
  "csv_field f =
     (if list_ex csv_special f
      then CHR 0x22 # concat (map (\<lambda>c. if c = CHR 0x22 then [c, c] else [c]) f) @ [CHR 0x22]
      else f)"

fun join_fields :: "string list \<Rightarrow> string" where
  "join_fields [] = []"
| "join_fields [f] = f"
| "join_fields (f # g # fs) = f @ CHR '','' # join_fields (g # fs)"

definition csv_row :: "string list \<Rightarrow> string" where
  "csv_row row =
     (if row = [[]] then [CHR 0x22, CHR 0x22, CHR 0x0D, CHR 0x0A]
      else join_fields (map csv_field row) @ [CHR 0x0D, CHR 0x0A])"

definition fieldnames :: "string list" where
  "fieldnames = [''Artikel'', ''Menge'', ''Standort'', ''Notizen'']"

text \<open>
  The row dictionary of an item, read in the order of the field names. The writer turns
  a value that is not text into text with \<^verbatim>\<open>str\<close>.
\<close>

definition item_fields :: "InventoryItem \<Rightarrow> string list" where
  "item_fields item = [name item, py_str (quantity item), location item, notes item]"

definition csv_text :: "InventoryItem list \<Rightarrow> string" where
  "csv_text xs = csv_row fieldnames @ concat (map (\<lambda>item. csv_row (item_fields item)) xs)"

text \<open>UTF-8 for the code points 0 to 255: one byte below 128, two bytes from there on.\<close>

definition utf8_char :: "char \<Rightarrow> char list" where
  "utf8_char c =
     (let n = of_char c :: nat
      in if n < 128 then [c] else [char_of (192 + n div 64), char_of (128 + n mod 64)])"

definition utf8 :: "string \<Rightarrow> char list" where
  "utf8 s = concat (map utf8_char s)"

text \<open>
  The file system maps a path to the bytes of the file there. What opening and writing
  do is up to the environment: \<open>WriteOk\<close> lets the whole text through, \<open>OpenFails\<close>
  raises before the file is touched, \<open>WriteFails n\<close> raises after \<open>n\<close> bytes have reached
  the file, which opening for writing has emptied.
\<close>

type_synonym fs = "string \<Rightarrow> char list option"

datatype io = WriteOk | OpenFails | WriteFails nat

datatype exn = OSError

definition write_csv :: "app \<Rightarrow> string \<Rightarrow> io \<Rightarrow> fs \<Rightarrow> fs \<times> exn option" where
  "write_csv s path env files =
     (case env of
        OpenFails \<Rightarrow> (files, Some OSError)
      | WriteFails n \<Rightarrow> (files(path \<mapsto> take n (utf8 (csv_text (items s)))), Some OSError)
      | WriteOk \<Rightarrow> (files(path \<mapsto> utf8 (csv_text (items s))), None))"

text \<open>
  \<open>file_path\<close> is the answer of the save dialog, empty when the user cancels it.
\<close>

definition export_csv :: "app \<Rightarrow> string \<Rightarrow> io \<Rightarrow> fs \<Rightarrow> app \<times> fs \<times> signal" where
  "export_csv s file_path env files =
     (if items s = [] then (s, files, EmptyLedger)
      else if file_path = [] then (s, files, Quiet)
      else case write_csv s file_path env files of
             (files', Some OSError) \<Rightarrow> (s, files', IOError)
           | (files', None) \<Rightarrow> (s, files', Saved file_path))"

section \<open>The window as a transition system\<close>

text \<open>
  What the user can do between two handlers: type into the four fields, change which
  rows are selected, and press one of the four buttons. The dialogs' answers come with
  the button.
\<close>

datatype event =
    TypeForm string string string string
  | SelectRows "nat list"
  | ClickAdd
  | ClickDelete
  | ClickClear bool
  | ClickExport string io

definition select_rows :: "nat list \<Rightarrow> tree_row list \<Rightarrow> tree_row list" where
  "select_rows ks rows = map (\<lambda>(k, r). r\<lparr>selected := k \<in> set ks\<rparr>) (enumerate 0 rows)"

fun step :: "app \<times> fs \<Rightarrow> event \<Rightarrow> app \<times> fs" where
  "step (s, files) (TypeForm a b c d) =
     (s\<lparr>name_var := a, quantity_var := b, location_var := c, notes_var := d\<rparr>, files)"
| "step (s, files) (SelectRows ks) = (s\<lparr>tree := select_rows ks (tree s)\<rparr>, files)"
| "step (s, files) ClickAdd = (fst (add_item s), files)"
| "step (s, files) ClickDelete = (fst (delete_selected s), files)"
| "step (s, files) (ClickClear confirmed) = (clear_items s confirmed, files)"
| "step (s, files) (ClickExport file_path env) =
     (case export_csv s file_path env files of (s', files', _) \<Rightarrow> (s', files'))"

definition run :: "event list \<Rightarrow> app \<times> fs" where
  "run evs = foldl step (init, Map.empty) evs"

section \<open>The data model of an entry\<close>

text \<open>
  An entry as the data model describes it: the name is not empty and the quantity is an
  integer of at least 1. Location and notes are text by their type.
\<close>

definition entry_ok :: "InventoryItem \<Rightarrow> bool" where
  "entry_ok item =
     (name item \<noteq> [] \<and> (case quantity item of IntV q \<Rightarrow> 1 \<le> q | StrV _ \<Rightarrow> False))"

text \<open>
  What every handler keeps: all entries fit the data model, and the table has as many
  rows as the ledger has entries.
\<close>

definition consistent :: "app \<Rightarrow> bool" where
  "consistent s = (list_all entry_ok (items s) \<and> length (tree s) = length (items s))"

section \<open>Reading a CSV file back\<close>

text \<open>
  The repository writes CSV files and never reads one. To state what reading a written
  file back yields, this section gives a reader for the file format: UTF-8 decoding for
  the code points 0 to 255, and a comma-separated reader with double-quote quoting that
  goes through the text one character at a time. A record ends at a carriage return, a
  line feed or the pair of them; inside quotes a doubled double quote stands for one,
  and commas and line ends are part of the field. A text that ends within a record
  ends that record. The reader keeps the field, the record and the list of records it
  is building in reverse.
\<close>

fun utf8_decode :: "char list \<Rightarrow> string option" where
  "utf8_decode [] = Some []"
| "utf8_decode [b] = (if (of_char b :: nat) < 128 then Some [b] else None)"
| "utf8_decode (b # b' # bs) =
     (let n = of_char b :: nat; n' = of_char b' :: nat
      in if n < 128 then map_option ((#) b) (utf8_decode (b' # bs))
         else if (n = 194 \<or> n = 195) \<and> 128 \<le> n' \<and> n' < 192
         then map_option ((#) (char_of ((n - 192) * 64 + (n' - 128)))) (utf8_decode bs)
         else None)"

datatype mode = RowStart | AfterCR | FieldStart | Unquoted | Quoted | QuoteInQuoted

type_synonym reader = "mode \<times> string \<times> string list \<times> string list list"

definition end_row :: "char \<Rightarrow> mode" where
  "end_row c = (if c = CHR 0x0D then AfterCR else RowStart)"

definition start_record :: "string list list \<Rightarrow> char \<Rightarrow> reader" where
  "start_record rows c =
     (if c = CHR 0x0A \<or> c = CHR 0x0D then (end_row c, [], [], [] # rows)
      else if c = CHR 0x22 then (Quoted, [], [], rows)
      else if c = CHR '','' then (FieldStart, [], [[]], rows)
      else (Unquoted, [c], [], rows))"

fun read_char :: "reader \<Rightarrow> char \<Rightarrow> reader" where
  "read_char (RowStart, cur, row, rows) c = start_record rows c"
| "read_char (AfterCR, cur, row, rows) c =
     (if c = CHR 0x0A then (RowStart, [], [], rows) else start_record rows c)"
| "read_char (FieldStart, cur, row, rows) c =
     (if c = CHR 0x0A \<or> c = CHR 0x0D then (end_row c, [], [], rev ([] # row) # rows)
      else if c = CHR 0x22 then (Quoted, [], row, rows)
      else if c = CHR '','' then (FieldStart, [], [] # row, rows)
      else (Unquoted, [c], row, rows))"
| "read_char (Unquoted, cur, row, rows) c =
     (if c = CHR 0x0A \<or> c = CHR 0x0D then (end_row c, [], [], rev (rev cur # row) # rows)
      else if c = CHR '','' then (FieldStart, [], rev cur # row, rows)
      else (Unquoted, c # cur, row, rows))"
| "read_char (Quoted, cur, row, rows) c =
     (if c = CHR 0x22 then (QuoteInQuoted, cur, row, rows) else (Quoted, c # cur, row, rows))"
| "read_char (QuoteInQuoted, cur, row, rows) c =
     (if c = CHR 0x22 then (Quoted, c # cur, row, rows)
      else if c = CHR '','' then (FieldStart, [], rev cur # row, rows)
      else if c = CHR 0x0A \<or> c = CHR 0x0D then (end_row c, [], [], rev (rev cur # row) # rows)
      else (Unquoted, c # cur, row, rows))"

definition csv_read :: "string \<Rightarrow> string list list" where
  "csv_read txt =
     (case foldl read_char (RowStart, [], [], []) txt of
        (m, cur, row, rows) \<Rightarrow>
          rev (if m = RowStart \<or> m = AfterCR then rows else rev (rev cur # row) # rows))"

definition read_back :: "char list \<Rightarrow> string list list option" where
  "read_back bytes = map_option csv_read (utf8_decode bytes)"

section \<open>Properties of adding\<close>

lemma strip_all_space: "\<forall>c \<in> set s. isspace c \<Longrightarrow> strip s = []"
  by (auto simp: strip_def dest: set_dropWhileD)

lemma strip_Nil_iff: "strip s = [] \<longleftrightarrow> (\<forall>c \<in> set s. isspace c)"
proof
  assume "strip s = []"
  then have "dropWhile isspace (rev (dropWhile isspace s)) = []"
    by (simp add: strip_def)
  then have "\<forall>c \<in> set (dropWhile isspace s). isspace c"
    by simp
  then have "dropWhile isspace s = []"
    by (metis hd_dropWhile list.set_sel(1))
  then show "\<forall>c \<in> set s. isspace c"
    by simp
next
  assume "\<forall>c \<in> set s. isspace c"
  then show "strip s = []" by (rule strip_all_space)
qed

text \<open>
  C6. When the name field is empty or holds only whitespace, \<open>add_item\<close> shows the
  \<open>EmptyName\<close> warning and changes nothing, whatever the other three fields hold:
  the ledger is the same and no entry is appended.
\<close>

theorem add_item_blank_name:
  "(\<forall>c \<in> set (name_var s). isspace c) \<Longrightarrow>
     add_item s = (s, EmptyName) \<and> items (fst (add_item s)) = items s"
  by (simp add: add_item_def strip_all_space)

theorem add_item_blank_name_witness:
  "add_item (init\<lparr>name_var := ''  '', quantity_var := ''abc''\<rparr>)
     = (init\<lparr>name_var := ''  '', quantity_var := ''abc''\<rparr>, EmptyName)"
proof -
  have a: "\<forall>c \<in> set (name_var (init\<lparr>name_var := ''  '', quantity_var := ''abc''\<rparr>)). isspace c"
    by (simp add: isspace_def)
  show ?thesis using add_item_blank_name [OF a] by (rule conjunct1)
qed

lemmas text_eval = strip_def isspace_def py_int_def int_isspace_def parse_digits_def
  isdigit_def digit_value_def read_quantity_def max_str_digits_def

text \<open>
  A text of digits alone that is longer than the limit does not parse, whatever number
  it would stand for.
\<close>

lemma dropWhile_none: "\<forall>c \<in> set s. \<not> P c \<Longrightarrow> dropWhile P s = s"
  by (cases s) auto

lemma py_int_digit_limit:
  assumes "\<forall>c \<in> set s. isdigit c" and "max_str_digits < length s"
  shows "py_int s = None"
proof -
  have ns: "\<forall>c \<in> set s. \<not> int_isspace c"
    using assms(1) by (auto simp: isdigit_def int_isspace_def)
  then have "\<forall>c \<in> set (rev s). \<not> int_isspace c" by simp
  then have t: "rev (dropWhile int_isspace (rev (dropWhile int_isspace s))) = s"
    using ns by (simp add: dropWhile_none)
  have "filter isdigit s = s" using assms(1) by (simp add: filter_id_conv)
  then show ?thesis using assms(2) by (simp add: py_int_def t)
qed

lemma py_int_4301_digits: "py_int (replicate 4300 CHR ''0'' @ ''1'') = None"
  by (rule py_int_digit_limit) (auto simp: isdigit_def max_str_digits_def)

lemmas handler_defs = add_item_def append_to_table_def reset_form_def Let_def

text \<open>
  C1, as amended. When the name field is not blank after trimming and the quantity
  field parses to an integer of at least 1, \<open>add_item\<close> appends exactly one entry and
  the ledger grows by one. The entry holds the trimmed name, the parsed quantity, the
  trimmed location and the trimmed notes; no dialog is shown.
\<close>

theorem add_item_appends:
  assumes "strip (name_var s) \<noteq> []"
    and "py_int (quantity_var s) = Some q"
    and "1 \<le> q"
  shows "items (fst (add_item s)) =
           items s @ [\<lparr>name = strip (name_var s), quantity = IntV q,
                        location = strip (location_var s), notes = strip (notes_var s)\<rparr>]
         \<and> length (items (fst (add_item s))) = length (items s) + 1
         \<and> snd (add_item s) = Quiet"
  using assms by (simp add: handler_defs read_quantity_def)

theorem add_item_appends_witness:
  "items (fst (add_item (init\<lparr>name_var := '' Mutter'', quantity_var := ''25'',
                              location_var := ''Regal B '', notes_var := []\<rparr>))) =
     [\<lparr>name = ''Mutter'', quantity = IntV 25, location = ''Regal B'', notes = []\<rparr>]"
proof -
  let ?s = "init\<lparr>name_var := '' Mutter'', quantity_var := ''25'',
                  location_var := ''Regal B '', notes_var := []\<rparr>"
  have a: "strip (name_var ?s) \<noteq> []" by (simp add: text_eval)
  have b: "py_int (quantity_var ?s) = Some 25" by (simp add: text_eval)
  have c: "(1::int) \<le> 25" by simp
  show ?thesis using add_item_appends [OF a b c] by (simp add: text_eval init_def)
qed

text \<open>
  The claim C1 as it is written, that the appended entry equals the input, fails for a
  location typed with a leading blank: the entry holds the trimmed text.
\<close>

theorem add_item_input_counterexample:
  "strip (name_var (init\<lparr>name_var := ''A'', location_var := '' B''\<rparr>)) \<noteq> []
   \<and> py_int (quantity_var (init\<lparr>name_var := ''A'', location_var := '' B''\<rparr>)) = Some 1
   \<and> items (fst (add_item (init\<lparr>name_var := ''A'', location_var := '' B''\<rparr>))) \<noteq>
       items (init\<lparr>name_var := ''A'', location_var := '' B''\<rparr>) @
         [\<lparr>name = ''A'', quantity = IntV 1, location = '' B'', notes = []\<rparr>]"
  by (simp add: handler_defs text_eval init_def)

text \<open>
  C5. When the quantity field is one of the texts 0, -1, abc or the empty text, or does
  not parse as an integer, or parses to an integer below 1, and the name, which is
  checked first, is not blank after trimming, \<open>add_item\<close> shows the \<open>InvalidQuantity\<close>
  warning and changes nothing: the ledger is the same and no entry is appended.
\<close>

theorem add_item_bad_quantity:
  assumes "strip (name_var s) \<noteq> []"
    and "quantity_var s \<in> set [''0'', ''-1'', ''abc'', '''']
         \<or> py_int (quantity_var s) = None
         \<or> (\<exists>v. py_int (quantity_var s) = Some v \<and> v < 1)"
  shows "add_item s = (s, InvalidQuantity)
         \<and> items (fst (add_item s)) = items s
         \<and> length (items (fst (add_item s))) = length (items s)"
proof -
  have "quantity_var s \<in> set [''0'', ''-1'', ''abc'', ''''] \<Longrightarrow> read_quantity (quantity_var s) = None"
    by (auto simp: text_eval)
  with assms(2) have "read_quantity (quantity_var s) = None"
    by (auto simp: read_quantity_def)
  then show ?thesis using assms(1) by (simp add: add_item_def Let_def)
qed

theorem add_item_bad_quantity_witness:
  "add_item (init\<lparr>name_var := ''Schraube'', quantity_var := ''-1''\<rparr>) =
     (init\<lparr>name_var := ''Schraube'', quantity_var := ''-1''\<rparr>, InvalidQuantity)
   \<and> add_item (init\<lparr>name_var := ''A'', quantity_var := replicate 4300 CHR ''0'' @ ''1''\<rparr>) =
     (init\<lparr>name_var := ''A'', quantity_var := replicate 4300 CHR ''0'' @ ''1''\<rparr>,
      InvalidQuantity)"
proof -
  let ?s = "init\<lparr>name_var := ''Schraube'', quantity_var := ''-1''\<rparr>"
  let ?t = "init\<lparr>name_var := ''A'', quantity_var := replicate 4300 CHR ''0'' @ ''1''\<rparr>"
  have a: "strip (name_var ?s) \<noteq> []" by (simp add: text_eval)
  have b: "quantity_var ?s \<in> set [''0'', ''-1'', ''abc'', '''']
           \<or> py_int (quantity_var ?s) = None
           \<or> (\<exists>v. py_int (quantity_var ?s) = Some v \<and> v < 1)" by simp
  have c: "strip (name_var ?t) \<noteq> []" by (simp add: text_eval)
  have d: "quantity_var ?t \<in> set [''0'', ''-1'', ''abc'', '''']
           \<or> py_int (quantity_var ?t) = None
           \<or> (\<exists>v. py_int (quantity_var ?t) = Some v \<and> v < 1)"
    using py_int_4301_digits by simp
  have "add_item ?s = (?s, InvalidQuantity)"
    using add_item_bad_quantity [OF a b] by (rule conjunct1)
  moreover have "add_item ?t = (?t, InvalidQuantity)"
    using add_item_bad_quantity [OF c d] by (rule conjunct1)
  ultimately show ?thesis by (rule conjI)
qed

text \<open>
  Whatever the name, such a quantity leaves the window as it was. With a blank name the
  dialog is the \<open>EmptyName\<close> warning, since the name is checked first.
\<close>

lemma add_item_bad_quantity_state:
  assumes "py_int (quantity_var s) = None \<or> (\<exists>v. py_int (quantity_var s) = Some v \<and> v < 1)"
  shows "fst (add_item s) = s"
proof -
  have "read_quantity (quantity_var s) = None"
    using assms by (auto simp: read_quantity_def)
  then show ?thesis by (simp add: add_item_def Let_def)
qed

lemma add_item_name_first:
  "py_int (quantity_var (init\<lparr>quantity_var := ''0''\<rparr>)) = Some 0
   \<and> snd (add_item (init\<lparr>quantity_var := ''0''\<rparr>)) = EmptyName"
  by (simp add: handler_defs text_eval init_def)

text \<open>
  C10. After an \<open>add_item\<close> that appends an entry the four form fields hold their
  initial values: name, location and notes empty, quantity 1. After an \<open>add_item\<close> that
  shows the \<open>EmptyName\<close> or the \<open>InvalidQuantity\<close> warning the four fields are as
  before. \<open>add_item\<close> ends in one of these three ways.
\<close>

theorem add_item_form:
  "snd (add_item s) \<in> {Quiet, EmptyName, InvalidQuantity}
   \<and> (snd (add_item s) = Quiet \<longrightarrow>
        length (items (fst (add_item s))) = Suc (length (items s))
        \<and> name_var (fst (add_item s)) = []
        \<and> quantity_var (fst (add_item s)) = ''1''
        \<and> location_var (fst (add_item s)) = []
        \<and> notes_var (fst (add_item s)) = [])
   \<and> (snd (add_item s) \<in> {EmptyName, InvalidQuantity} \<longrightarrow>
        items (fst (add_item s)) = items s
        \<and> name_var (fst (add_item s)) = name_var s
        \<and> quantity_var (fst (add_item s)) = quantity_var s
        \<and> location_var (fst (add_item s)) = location_var s
        \<and> notes_var (fst (add_item s)) = notes_var s)"
  by (simp add: handler_defs split: option.split)

theorem add_item_form_witness:
  "(snd (add_item (init\<lparr>name_var := ''A'', quantity_var := ''2'', notes_var := ''x''\<rparr>)) = Quiet
    \<and> notes_var (fst (add_item (init\<lparr>name_var := ''A'', quantity_var := ''2'', notes_var := ''x''\<rparr>))) = []
    \<and> quantity_var (fst (add_item (init\<lparr>name_var := ''A'', quantity_var := ''2'', notes_var := ''x''\<rparr>))) = ''1'')
   \<and> (snd (add_item (init\<lparr>name_var := ''A'', quantity_var := ''x'', notes_var := ''x''\<rparr>)) = InvalidQuantity
    \<and> quantity_var (fst (add_item (init\<lparr>name_var := ''A'', quantity_var := ''x'', notes_var := ''x''\<rparr>))) = ''x'')
   \<and> (snd (add_item (init\<lparr>name_var := '' '', location_var := ''x''\<rparr>)) = EmptyName
    \<and> location_var (fst (add_item (init\<lparr>name_var := '' '', location_var := ''x''\<rparr>))) = ''x'')"
proof -
  have a: "snd (add_item (init\<lparr>name_var := ''A'', quantity_var := ''2'', notes_var := ''x''\<rparr>)) = Quiet"
    by (simp add: handler_defs text_eval)
  have b: "snd (add_item (init\<lparr>name_var := ''A'', quantity_var := ''x'', notes_var := ''x''\<rparr>)) = InvalidQuantity"
    by (simp add: handler_defs text_eval)
  have c: "snd (add_item (init\<lparr>name_var := '' '', location_var := ''x''\<rparr>)) = EmptyName"
    by (simp add: handler_defs text_eval)
  show ?thesis
    using a b c
      add_item_form [of "init\<lparr>name_var := ''A'', quantity_var := ''2'', notes_var := ''x''\<rparr>"]
      add_item_form [of "init\<lparr>name_var := ''A'', quantity_var := ''x'', notes_var := ''x''\<rparr>"]
      add_item_form [of "init\<lparr>name_var := '' '', location_var := ''x''\<rparr>"]
    by simp
qed

section \<open>Properties of deleting\<close>

lemma first_selected_bound: "first_selected rows = Some i \<Longrightarrow> i < length rows"
  by (induction rows arbitrary: i) (auto split: if_splits)

lemma length_remove_at: "i < length xs \<Longrightarrow> Suc (length (remove_at i xs)) = length xs"
  by (auto simp: remove_at_def)

lemma list_all_remove_at: "list_all P xs \<Longrightarrow> list_all P (remove_at i xs)"
  by (auto simp: remove_at_def list_all_iff dest: in_set_takeD in_set_dropD)

lemma item_values_of_cells: "item_values (item_of_cells v) = v"
  by (cases v) (simp add: item_values_def item_of_cells_def)

text \<open>
  C8. When the first selected row is at position \<open>i\<close> and \<open>i\<close> is within the ledger,
  \<open>delete_selected\<close> leaves the entries before \<open>i\<close> followed by the entries after \<open>i\<close>:
  the ledger is shorter by one, the entries before \<open>i\<close> stay where they were and the
  entries after \<open>i\<close> move down by one place.
\<close>

theorem delete_selected_removes:
  assumes "first_selected (tree s) = Some i"
    and "i < length (items s)"
  shows "items (fst (delete_selected s)) = take i (items s) @ drop (Suc i) (items s)
         \<and> Suc (length (items (fst (delete_selected s)))) = length (items s)
         \<and> (\<forall>k < i. items (fst (delete_selected s)) ! k = items s ! k)
         \<and> (\<forall>k. i \<le> k \<and> Suc k < length (items s) \<longrightarrow>
               items (fst (delete_selected s)) ! k = items s ! Suc k)"
proof -
  have eq: "items (fst (delete_selected s)) = take i (items s) @ drop (Suc i) (items s)"
    using assms by (simp add: delete_selected_def Let_def remove_at_def)
  have len: "Suc (length (take i (items s) @ drop (Suc i) (items s))) = length (items s)"
    using assms(2) by auto
  have before: "\<forall>k < i. (take i (items s) @ drop (Suc i) (items s)) ! k = items s ! k"
    using assms(2) by (simp add: nth_append)
  have after: "\<forall>k. i \<le> k \<and> Suc k < length (items s) \<longrightarrow>
                 (take i (items s) @ drop (Suc i) (items s)) ! k = items s ! Suc k"
    using assms(2) by (auto simp: nth_append min_def)
  show ?thesis using len before after unfolding eq by blast
qed

theorem delete_selected_removes_witness:
  "items (fst (delete_selected
     \<lparr>items = [\<lparr>name = ''A'', quantity = IntV 1, location = [], notes = []\<rparr>,
               \<lparr>name = ''B'', quantity = IntV 2, location = [], notes = []\<rparr>],
      tree = [\<lparr>cells = (''A'', ''1'', [], []), selected = True\<rparr>,
              \<lparr>cells = (''B'', ''2'', [], []), selected = False\<rparr>],
      name_var = [], quantity_var = ''1'', location_var = [], notes_var = []\<rparr>))
   = [\<lparr>name = ''B'', quantity = IntV 2, location = [], notes = []\<rparr>]"
proof -
  let ?s = "\<lparr>items = [\<lparr>name = ''A'', quantity = IntV 1, location = [], notes = []\<rparr>,
               \<lparr>name = ''B'', quantity = IntV 2, location = [], notes = []\<rparr>],
      tree = [\<lparr>cells = (''A'', ''1'', [], []), selected = True\<rparr>,
              \<lparr>cells = (''B'', ''2'', [], []), selected = False\<rparr>],
      name_var = [], quantity_var = ''1'', location_var = [], notes_var = []\<rparr>"
  have a: "first_selected (tree ?s) = Some 0" by simp
  have b: "0 < length (items ?s)" by simp
  show ?thesis using delete_selected_removes [OF a b] by simp
qed

text \<open>
  C4. When the first selected row is at a position that is not within the ledger,
  \<open>delete_selected\<close> removes the row from the table and rebuilds the ledger from the rows
  that are left: afterwards the ledger has one entry for each row, in the order of the
  rows, and the values of each entry are the cells of its row.
\<close>

theorem delete_selected_resync:
  assumes "first_selected (tree s) = Some i"
    and "length (items s) \<le> i"
  shows "tree (fst (delete_selected s)) = remove_at i (tree s)
         \<and> items (fst (delete_selected s)) =
             map (\<lambda>r. item_of_cells (cells r)) (tree (fst (delete_selected s)))
         \<and> length (items (fst (delete_selected s))) = length (tree (fst (delete_selected s)))
         \<and> map item_values (items (fst (delete_selected s))) =
             map cells (tree (fst (delete_selected s)))"
  using assms by (simp add: delete_selected_def Let_def item_values_of_cells comp_def)

theorem delete_selected_resync_witness:
  "items (fst (delete_selected
     \<lparr>items = [\<lparr>name = ''A'', quantity = IntV 1, location = [], notes = []\<rparr>],
      tree = [\<lparr>cells = (''A'', ''1'', [], []), selected = False\<rparr>,
              \<lparr>cells = (''B'', ''2'', [], []), selected = False\<rparr>,
              \<lparr>cells = (''C'', ''3'', [], []), selected = True\<rparr>],
      name_var = [], quantity_var = ''1'', location_var = [], notes_var = []\<rparr>))
   = [\<lparr>name = ''A'', quantity = StrV ''1'', location = [], notes = []\<rparr>,
      \<lparr>name = ''B'', quantity = StrV ''2'', location = [], notes = []\<rparr>]"
proof -
  let ?s = "\<lparr>items = [\<lparr>name = ''A'', quantity = IntV 1, location = [], notes = []\<rparr>],
      tree = [\<lparr>cells = (''A'', ''1'', [], []), selected = False\<rparr>,
              \<lparr>cells = (''B'', ''2'', [], []), selected = False\<rparr>,
              \<lparr>cells = (''C'', ''3'', [], []), selected = True\<rparr>],
      name_var = [], quantity_var = ''1'', location_var = [], notes_var = []\<rparr>"
  have a: "first_selected (tree ?s) = Some 2" by simp
  have b: "length (items ?s) \<le> 2" by simp
  show ?thesis using delete_selected_resync [OF a b]
    by (simp add: remove_at_def item_of_cells_def)
qed

text \<open>
  On that path the quantity of every rebuilt entry is the text of the table cell, not
  an integer: the cells come back from the widget as text and are stored as they are.
\<close>

lemma delete_selected_resync_quantity:
  assumes "first_selected (tree s) = Some i"
    and "length (items s) \<le> i"
  shows "\<forall>item \<in> set (items (fst (delete_selected s))). \<exists>t. quantity item = StrV t"
  using assms by (auto simp: delete_selected_def Let_def item_of_cells_def split: prod.splits)

text \<open>
  In a state where table and ledger have the same length the path is not taken: the
  position of a selected row is always within the ledger.
\<close>

lemma delete_selected_in_range:
  assumes "length (tree s) = length (items s)"
    and "first_selected (tree s) = Some i"
  shows "i < length (items s)"
  using assms first_selected_bound [of "tree s" i] by simp


section \<open>Properties of exporting\<close>

text \<open>
  C7. On an empty ledger \<open>export_csv\<close> shows the \<open>EmptyLedger\<close> notice and does nothing
  else: the file system is as before, so no file is written, and the window, with its
  empty ledger, is as before.
\<close>

theorem export_csv_empty:
  "items s = [] \<Longrightarrow> export_csv s file_path env files = (s, files, EmptyLedger)"
  by (simp add: export_csv_def)

theorem export_csv_empty_witness:
  "items init = [] \<and> export_csv init ''out.csv'' WriteOk Map.empty = (init, Map.empty, EmptyLedger)"
  using export_csv_empty [of init "''out.csv''" WriteOk Map.empty]
  by (simp add: init_def)

text \<open>
  C9. An \<open>export_csv\<close> that ends with an error raised while opening or writing the file
  leaves the window as it was; in particular the ledger is the same as before the export.
\<close>

theorem export_csv_failure_keeps_ledger:
  "snd (snd (export_csv s file_path env files)) = IOError \<Longrightarrow>
     fst (export_csv s file_path env files) = s
     \<and> items (fst (export_csv s file_path env files)) = items s"
  by (auto simp: export_csv_def write_csv_def split: if_splits io.splits)

theorem export_csv_failure_keeps_ledger_witness:
  "snd (snd (export_csv (fst (add_item (init\<lparr>name_var := ''A''\<rparr>))) ''out.csv'' (WriteFails 3) Map.empty)) = IOError
   \<and> items (fst (export_csv (fst (add_item (init\<lparr>name_var := ''A''\<rparr>))) ''out.csv'' (WriteFails 3) Map.empty))
       = [\<lparr>name = ''A'', quantity = IntV 1, location = [], notes = []\<rparr>]"
proof -
  let ?s = "fst (add_item (init\<lparr>name_var := ''A''\<rparr>))"
  have a: "snd (snd (export_csv ?s ''out.csv'' (WriteFails 3) Map.empty)) = IOError"
    by (simp add: export_csv_def write_csv_def handler_defs text_eval init_def)
  have b: "items ?s = [\<lparr>name = ''A'', quantity = IntV 1, location = [], notes = []\<rparr>]"
    by (simp add: handler_defs text_eval init_def)
  show ?thesis using a b export_csv_failure_keeps_ledger [OF a] by simp
qed

section \<open>The ledger over runs of the window\<close>

lemma read_quantity_Some: "read_quantity txt = Some q \<Longrightarrow> 1 \<le> q"
  by (auto simp: read_quantity_def split: option.splits if_splits)

lemma consistent_init: "consistent init"
  by (simp add: consistent_def init_def)

lemma consistent_add_item: "consistent s \<Longrightarrow> consistent (fst (add_item s))"
  by (auto simp: consistent_def handler_defs entry_ok_def
           split: option.splits dest: read_quantity_Some)

lemma consistent_delete_selected:
  assumes "consistent s"
  shows "consistent (fst (delete_selected s))"
proof (cases "first_selected (tree s)")
  case None
  then show ?thesis using assms by (simp add: delete_selected_def)
next
  case (Some i)
  then have "i < length (tree s)" by (rule first_selected_bound)
  then have i: "i < length (items s)" using assms by (simp add: consistent_def)
  have "length (remove_at i (tree s)) = length (remove_at i (items s))"
    using i assms by (simp add: consistent_def remove_at_def)
  then show ?thesis
    using Some i assms
    by (simp add: delete_selected_def Let_def consistent_def list_all_remove_at)
qed

lemma consistent_clear_items: "consistent s \<Longrightarrow> consistent (clear_items s b)"
  by (simp add: consistent_def clear_items_def)

lemma export_csv_app: "fst (export_csv s file_path env files) = s"
  by (simp add: export_csv_def write_csv_def split: io.split)

lemma consistent_step: "consistent (fst w) \<Longrightarrow> consistent (fst (step w e))"
proof (cases w)
  case (Pair s files)
  assume "consistent (fst w)"
  then have c: "consistent s" using Pair by simp
  show ?thesis
  proof (cases e)
    case (TypeForm a b c d)
    then show ?thesis using c Pair by (simp add: consistent_def)
  next
    case (SelectRows ks)
    then show ?thesis using c Pair by (simp add: consistent_def select_rows_def)
  next
    case ClickAdd
    then show ?thesis using c Pair by (simp add: consistent_add_item)
  next
    case ClickDelete
    then show ?thesis using c Pair by (simp add: consistent_delete_selected)
  next
    case (ClickClear b)
    then show ?thesis using c Pair by (simp add: consistent_clear_items)
  next
    case (ClickExport p env)
    have "fst (case export_csv s p env files of (s', files', _) \<Rightarrow> (s', files')) =
            fst (export_csv s p env files)"
      by (simp split: prod.split)
    then show ?thesis using c Pair ClickExport by (simp add: export_csv_app)
  qed
qed

lemma consistent_foldl: "consistent (fst w) \<Longrightarrow> consistent (fst (foldl step w evs))"
proof (induction evs arbitrary: w)
  case Nil
  then show ?case by simp
next
  case (Cons e evs)
  have "consistent (fst (step w e))" using Cons.prems by (rule consistent_step)
  then have "consistent (fst (foldl step (step w e) evs))" by (rule Cons.IH)
  then show ?case by simp
qed

lemma consistent_run: "consistent (fst (run evs))"
  unfolding run_def by (rule consistent_foldl) (simp add: consistent_init)

text \<open>
  In the runs of the freshly opened window (typing into the form, selecting rows, and
  pressing add, delete, clear or export, with any answers of the dialogs) the recovery
  path is never taken, and every entry of the ledger fits the data model: its name is
  not empty and its quantity is an integer of at least 1.
\<close>

lemma ledger_entries_valid:
  "\<forall>item \<in> set (items (fst (run evs))).
     name item \<noteq> [] \<and> (\<exists>q. quantity item = IntV q \<and> 1 \<le> q)"
proof
  fix item
  assume "item \<in> set (items (fst (run evs)))"
  moreover have "list_all entry_ok (items (fst (run evs)))"
    using consistent_run [of evs] by (simp add: consistent_def)
  ultimately have "entry_ok item" by (simp add: list_all_iff)
  then show "name item \<noteq> [] \<and> (\<exists>q. quantity item = IntV q \<and> 1 \<le> q)"
    by (cases "quantity item") (simp_all add: entry_ok_def)
qed

lemma ledger_entries_valid_example:
  "items (fst (run [TypeForm ''A'' ''1'' [] [], ClickAdd, TypeForm ''B'' ''2'' [] [], ClickAdd,
                    SelectRows [0], ClickDelete]))
     = [\<lparr>name = ''B'', quantity = IntV 2, location = [], notes = []\<rparr>]
   \<and> name (hd (items (fst (run [TypeForm ''A'' ''1'' [] [], ClickAdd,
                    TypeForm ''B'' ''2'' [] [], ClickAdd, SelectRows [0], ClickDelete])))) \<noteq> []
   \<and> (\<exists>q. quantity (hd (items (fst (run [TypeForm ''A'' ''1'' [] [], ClickAdd,
                    TypeForm ''B'' ''2'' [] [], ClickAdd, SelectRows [0], ClickDelete]))))
              = IntV q \<and> 1 \<le> q)"
proof -
  let ?evs = "[TypeForm ''A'' ''1'' [] [], ClickAdd, TypeForm ''B'' ''2'' [] [], ClickAdd,
               SelectRows [0], ClickDelete]"
  have e: "items (fst (run ?evs)) = [\<lparr>name = ''B'', quantity = IntV 2, location = [], notes = []\<rparr>]"
    by (simp add: run_def init_def handler_defs text_eval select_rows_def enumerate_eq_zip
        delete_selected_def remove_at_def item_values_def str_int_def str_nat.simps digit_char_def)
  then have "hd (items (fst (run ?evs))) \<in> set (items (fst (run ?evs)))" by simp
  then have "name (hd (items (fst (run ?evs)))) \<noteq> []
             \<and> (\<exists>q. quantity (hd (items (fst (run ?evs)))) = IntV q \<and> 1 \<le> q)"
    using ledger_entries_valid [of ?evs] by blast
  then show ?thesis using e by blast
qed

section \<open>Writing and reading back\<close>

lemma utf8_decode_ascii:
  "(of_char b :: nat) < 128 \<Longrightarrow> utf8_decode (b # bs) = map_option ((#) b) (utf8_decode bs)"
  by (cases bs) (simp_all add: Let_def)

lemma high_code_point:
  fixes n :: nat
  assumes "128 \<le> n" and "n < 256"
  shows "n div 64 = 2 \<or> n div 64 = 3"
  using assms by linarith

lemma utf8_decode_two:
  assumes "128 \<le> (of_char c :: nat)"
  shows "utf8_decode (char_of (192 + (of_char c :: nat) div 64)
           # char_of (128 + (of_char c :: nat) mod 64) # bs)
         = map_option ((#) c) (utf8_decode bs)"
proof -
  define n where "n = (of_char c :: nat)"
  define hi where "hi = n div 64"
  define lo where "lo = n mod 64"
  have lt: "n < 256" unfolding n_def by (rule nat_of_char_less_256)
  have ge: "128 \<le> n" using assms by (simp add: n_def)
  have d: "hi = 2 \<or> hi = 3" unfolding hi_def using ge lt by (rule high_code_point)
  have lo64: "lo < 64" by (simp add: lo_def)
  have n_eq: "hi * 64 + lo = n" by (simp add: hi_def lo_def)
  have a: "(of_char (char_of (192 + hi)) :: nat) = 192 + hi"
    using d by auto
  have b: "(of_char (char_of (128 + lo)) :: nat) = 128 + lo"
    using lo64 by simp
  have dec: "char_of ((192 + hi - 192) * 64 + (128 + lo - 128)) = c"
    using n_eq by (simp add: n_def)
  have "utf8_decode (char_of (192 + hi) # char_of (128 + lo) # bs)
          = map_option ((#) c) (utf8_decode bs)"
    using d lo64 by (simp only: utf8_decode.simps Let_def a b dec) auto
  then show ?thesis by (simp only: hi_def lo_def n_def)
qed

lemma utf8_decode_utf8: "utf8_decode (utf8 s) = Some s"
proof (induction s)
  case Nil
  then show ?case by (simp add: utf8_def)
next
  case (Cons c s)
  have ih: "utf8_decode (utf8 s) = Some s" using Cons by simp
  show ?case
  proof (cases "(of_char c :: nat) < 128")
    case True
    have "utf8 (c # s) = c # utf8 s"
      using True by (simp add: utf8_def utf8_char_def Let_def)
    then show ?thesis using True ih by (simp add: utf8_decode_ascii)
  next
    case False
    then have ge: "128 \<le> (of_char c :: nat)" by simp
    have "utf8 (c # s) = char_of (192 + (of_char c :: nat) div 64)
            # char_of (128 + (of_char c :: nat) mod 64) # utf8 s"
      using False by (simp add: utf8_def utf8_char_def Let_def)
    then show ?thesis using utf8_decode_two [OF ge, of "utf8 s"] ih by simp
  qed
qed

text \<open>Characters outside quotes that are neither separator nor quote nor line end.\<close>

lemma read_plain:
  "\<not> list_ex csv_special f \<Longrightarrow>
     foldl read_char (Unquoted, cur, row, rows) f = (Unquoted, rev f @ cur, row, rows)"
  by (induction f arbitrary: cur) (auto simp: csv_special_def)

lemma read_plain_first:
  assumes "\<not> list_ex csv_special f" and "f \<noteq> []"
  shows "foldl read_char (FieldStart, [], row, rows) f = (Unquoted, rev f, row, rows)"
    and "foldl read_char (RowStart, [], [], rows) f = (Unquoted, rev f, [], rows)"
proof -
  obtain c g where f: "f = c # g" using assms(2) by (cases f) auto
  have c: "\<not> csv_special c" and g: "\<not> list_ex csv_special g" using assms(1) f by auto
  show "foldl read_char (FieldStart, [], row, rows) f = (Unquoted, rev f, row, rows)"
    using c read_plain [OF g, of "[c]" row rows] by (simp add: f csv_special_def)
  show "foldl read_char (RowStart, [], [], rows) f = (Unquoted, rev f, [], rows)"
    using c read_plain [OF g, of "[c]" "[]" rows]
    by (simp add: f csv_special_def start_record_def)
qed

lemma read_quoted_body:
  "foldl read_char (Quoted, cur, row, rows)
     (concat (map (\<lambda>c. if c = CHR 0x22 then [c, c] else [c]) f))
   = (Quoted, rev f @ cur, row, rows)"
  by (induction f arbitrary: cur) auto

text \<open>
  After the text of one field the reader holds that field, in a mode from which a comma
  or a line end closes it.
\<close>

lemma read_field:
  "\<exists>m. foldl read_char (FieldStart, [], row, rows) (csv_field f) = (m, rev f, row, rows)
        \<and> ((m = FieldStart \<and> f = []) \<or> m = Unquoted \<or> m = QuoteInQuoted)"
proof (cases "list_ex csv_special f")
  case True
  then show ?thesis by (simp add: csv_field_def read_quoted_body)
next
  case False
  then show ?thesis
    by (cases "f = []") (simp_all add: csv_field_def read_plain_first(1))
qed

lemma read_field_first:
  "\<exists>m. foldl read_char (RowStart, [], [], rows) (csv_field f) = (m, rev f, [], rows)
        \<and> ((m = RowStart \<and> f = []) \<or> m = Unquoted \<or> m = QuoteInQuoted)"
proof (cases "list_ex csv_special f")
  case True
  then show ?thesis by (simp add: csv_field_def read_quoted_body start_record_def)
next
  case False
  then show ?thesis
    by (cases "f = []") (simp_all add: csv_field_def read_plain_first(2))
qed

lemma read_comma:
  "(m = FieldStart \<and> cur = []) \<or> (m = RowStart \<and> cur = [] \<and> row = [])
     \<or> m = Unquoted \<or> m = QuoteInQuoted \<Longrightarrow>
   read_char (m, cur, row, rows) CHR '','' = (FieldStart, [], rev cur # row, rows)"
  by (auto simp: start_record_def)

lemma read_crlf:
  "(m = FieldStart \<and> cur = []) \<or> m = Unquoted \<or> m = QuoteInQuoted \<Longrightarrow>
   foldl read_char (m, cur, row, rows) [CHR 0x0D, CHR 0x0A]
     = (RowStart, [], [], rev (rev cur # row) # rows)"
  by (auto simp: end_row_def)

lemma join_fields_concat:
  "join_fields (f # gs) = f @ concat (map (\<lambda>g. CHR '','' # g) gs)"
  by (induction gs arbitrary: f) auto

lemma read_fields:
  "foldl read_char (FieldStart, [], row, rows)
     (csv_field g @ concat (map (\<lambda>h. CHR '','' # csv_field h) hs) @ [CHR 0x0D, CHR 0x0A])
   = (RowStart, [], [], rev (rev hs @ g # row) # rows)"
proof (induction hs arbitrary: g row)
  case Nil
  obtain m where m: "foldl read_char (FieldStart, [], row, rows) (csv_field g) = (m, rev g, row, rows)"
    and e: "(m = FieldStart \<and> g = []) \<or> m = Unquoted \<or> m = QuoteInQuoted"
    using read_field [of row rows g] by blast
  have e': "(m = FieldStart \<and> rev g = []) \<or> m = Unquoted \<or> m = QuoteInQuoted"
    using e by simp
  show ?case using read_crlf [OF e', of row rows] by (simp add: m)
next
  case (Cons h hs)
  obtain m where m: "foldl read_char (FieldStart, [], row, rows) (csv_field g) = (m, rev g, row, rows)"
    and e: "(m = FieldStart \<and> g = []) \<or> m = Unquoted \<or> m = QuoteInQuoted"
    using read_field [of row rows g] by blast
  have e': "(m = FieldStart \<and> rev g = []) \<or> (m = RowStart \<and> rev g = [] \<and> row = [])
              \<or> m = Unquoted \<or> m = QuoteInQuoted"
    using e by auto
  have c: "read_char (m, rev g, row, rows) CHR '','' = (FieldStart, [], g # row, rows)"
    using read_comma [OF e', of rows] by simp
  show ?case using Cons.IH [where g = h and row = "g # row"] by (simp add: m c)
qed

lemma read_row:
  "foldl read_char (RowStart, [], [], rows) (csv_row r) = (RowStart, [], [], r # rows)"
proof (cases r)
  case Nil
  then show ?thesis by (simp add: csv_row_def start_record_def end_row_def)
next
  case (Cons f gs)
  show ?thesis
  proof (cases "r = [[]]")
    case True
    then show ?thesis by (simp add: csv_row_def start_record_def end_row_def)
  next
    case False
    obtain m where m: "foldl read_char (RowStart, [], [], rows) (csv_field f) = (m, rev f, [], rows)"
      and e: "(m = RowStart \<and> f = []) \<or> m = Unquoted \<or> m = QuoteInQuoted"
      using read_field_first [of rows f] by blast
    have shape: "csv_row r = csv_field f
                 @ concat (map (\<lambda>h. CHR '','' # csv_field h) gs) @ [CHR 0x0D, CHR 0x0A]"
    proof -
      have "csv_row r = join_fields (map csv_field r) @ [CHR 0x0D, CHR 0x0A]"
        using False by (simp add: csv_row_def)
      then show ?thesis
        using Cons by (simp add: join_fields_concat comp_def)
    qed
    have start: "foldl read_char (RowStart, [], [], rows) (csv_row r)
                 = foldl read_char (m, rev f, [], rows)
                     (concat (map (\<lambda>h. CHR '','' # csv_field h) gs) @ [CHR 0x0D, CHR 0x0A])"
      by (simp only: shape foldl_append m)
    show ?thesis
    proof (cases gs)
      case Nil
      then have "f \<noteq> []" using False Cons by simp
      then have e': "(m = FieldStart \<and> rev f = []) \<or> m = Unquoted \<or> m = QuoteInQuoted"
        using e by auto
      have "foldl read_char (m, rev f, [], rows)
              (concat (map (\<lambda>h. CHR '','' # csv_field h) gs) @ [CHR 0x0D, CHR 0x0A])
            = (RowStart, [], [], [f] # rows)"
        using read_crlf [OF e', of "[]" rows] Nil by simp
      with start have "foldl read_char (RowStart, [], [], rows) (csv_row r)
                         = (RowStart, [], [], [f] # rows)"
        by (rule trans)
      moreover have "[f] = r" using Nil \<open>r = f # gs\<close> by simp
      ultimately show ?thesis by (simp only:)
    next
      case (Cons g hs)
      have e': "(m = FieldStart \<and> rev f = []) \<or> (m = RowStart \<and> rev f = [] \<and> [] = ([] :: string list))
                  \<or> m = Unquoted \<or> m = QuoteInQuoted"
        using e by auto
      have c: "read_char (m, rev f, [], rows) CHR '','' = (FieldStart, [], [f], rows)"
        using read_comma [OF e', of rows] by simp
      have "foldl read_char (m, rev f, [], rows)
              (concat (map (\<lambda>h. CHR '','' # csv_field h) gs) @ [CHR 0x0D, CHR 0x0A])
            = (RowStart, [], [], (f # g # hs) # rows)"
        using read_fields [of "[f]" rows g hs] Cons by (simp add: c)
      with start have "foldl read_char (RowStart, [], [], rows) (csv_row r)
                         = (RowStart, [], [], (f # g # hs) # rows)"
        by (rule trans)
      moreover have "f # g # hs = r" using Cons \<open>r = f # gs\<close> by simp
      ultimately show ?thesis by (simp only:)
    qed
  qed
qed

lemma read_rows:
  "foldl read_char (RowStart, [], [], rows) (concat (map csv_row rs)) = (RowStart, [], [], rev rs @ rows)"
  by (induction rs arbitrary: rows) (simp_all add: read_row)

lemma csv_read_rows: "csv_read (concat (map csv_row rs)) = rs"
  by (simp add: csv_read_def read_rows)

lemma csv_read_csv_text: "csv_read (csv_text xs) = fieldnames # map item_fields xs"
  using csv_read_rows [of "fieldnames # map item_fields xs"]
  by (simp add: csv_text_def comp_def)

lemma read_back_written:
  "read_back (utf8 (csv_text xs)) = Some (fieldnames # map item_fields xs)"
  by (simp add: read_back_def utf8_decode_utf8 csv_read_csv_text)

lemmas csv_eval = csv_text_def csv_row_def csv_field_def csv_special_def fieldnames_def
  item_fields_def str_int_def str_nat.simps digit_char_def utf8_def utf8_char_def

lemma two_entries_bytes:
  "utf8 (csv_text
     [\<lparr>name = ''Schraube'', quantity = IntV 10, location = ''Regal A'', notes = ''rostfrei''\<rparr>,
      \<lparr>name = ''Mutter'', quantity = IntV 25, location = ''Regal B'', notes = []\<rparr>])
   = ''Artikel,Menge,Standort,Notizen'' @ [CHR 0x0D, CHR 0x0A]
     @ ''Schraube,10,Regal A,rostfrei'' @ [CHR 0x0D, CHR 0x0A]
     @ ''Mutter,25,Regal B,'' @ [CHR 0x0D, CHR 0x0A]"
  by (simp add: csv_eval)

lemma two_entries_fields:
  "map item_fields
     [\<lparr>name = ''Schraube'', quantity = IntV 10, location = ''Regal A'', notes = ''rostfrei''\<rparr>,
      \<lparr>name = ''Mutter'', quantity = IntV 25, location = ''Regal B'', notes = []\<rparr>]
   = [[''Schraube'', ''10'', ''Regal A'', ''rostfrei''], [''Mutter'', ''25'', ''Regal B'', []]]"
  by (simp add: item_fields_def str_int_def str_nat.simps digit_char_def)

text \<open>
  C2. When the ledger is not empty, the save dialog names a file and the environment
  lets the write through, \<open>export_csv\<close> stores at that path the UTF-8 bytes of the CSV
  text, shows the \<open>Saved\<close> notice and leaves the window as it was. The text is the
  header record followed by one record for each entry in ledger order, and reading the
  bytes back gives the header fields and, for each entry in order, its name, the decimal
  form of its quantity, its location and its notes, whatever characters they hold. For
  the ledger of the two entries Schraube and Mutter the file is the header line and the
  two lines \<open>Schraube,10,Regal A,rostfrei\<close> and \<open>Mutter,25,Regal B,\<close>, each ended by
  carriage return and line feed, and it reads back as the header and exactly these two
  rows, with the quantities as the texts 10 and 25.
\<close>

theorem export_csv_round_trip:
  assumes "items s \<noteq> []" and "file_path \<noteq> []"
  shows "export_csv s file_path WriteOk files
           = (s, files(file_path \<mapsto> utf8 (csv_text (items s))), Saved file_path)
         \<and> csv_text (items s)
             = csv_row [''Artikel'', ''Menge'', ''Standort'', ''Notizen'']
               @ concat (map (\<lambda>item. csv_row [name item, py_str (quantity item),
                                                   location item, notes item]) (items s))
         \<and> read_back (utf8 (csv_text (items s)))
             = Some ([''Artikel'', ''Menge'', ''Standort'', ''Notizen'']
                     # map (\<lambda>item. [name item, py_str (quantity item),
                                         location item, notes item]) (items s))
         \<and> (items s =
               [\<lparr>name = ''Schraube'', quantity = IntV 10, location = ''Regal A'',
                  notes = ''rostfrei''\<rparr>,
                \<lparr>name = ''Mutter'', quantity = IntV 25, location = ''Regal B'', notes = []\<rparr>]
              \<longrightarrow>
                utf8 (csv_text (items s))
                  = ''Artikel,Menge,Standort,Notizen'' @ [CHR 0x0D, CHR 0x0A]
                    @ ''Schraube,10,Regal A,rostfrei'' @ [CHR 0x0D, CHR 0x0A]
                    @ ''Mutter,25,Regal B,'' @ [CHR 0x0D, CHR 0x0A]
                \<and> read_back (utf8 (csv_text (items s)))
                  = Some [[''Artikel'', ''Menge'', ''Standort'', ''Notizen''],
                          [''Schraube'', ''10'', ''Regal A'', ''rostfrei''],
                          [''Mutter'', ''25'', ''Regal B'', []]])"
proof -
  have written: "export_csv s file_path WriteOk files
           = (s, files(file_path \<mapsto> utf8 (csv_text (items s))), Saved file_path)"
    using assms by (simp add: export_csv_def write_csv_def)
  have shape: "csv_text (items s)
             = csv_row [''Artikel'', ''Menge'', ''Standort'', ''Notizen'']
               @ concat (map (\<lambda>item. csv_row [name item, py_str (quantity item),
                                                   location item, notes item]) (items s))"
    by (simp add: csv_text_def fieldnames_def item_fields_def)
  have rb: "read_back (utf8 (csv_text (items s)))
             = Some ([''Artikel'', ''Menge'', ''Standort'', ''Notizen'']
                     # map (\<lambda>item. [name item, py_str (quantity item),
                                         location item, notes item]) (items s))"
    using read_back_written [of "items s"] by (simp add: fieldnames_def item_fields_def)
  have two: "items s =
               [\<lparr>name = ''Schraube'', quantity = IntV 10, location = ''Regal A'',
                  notes = ''rostfrei''\<rparr>,
                \<lparr>name = ''Mutter'', quantity = IntV 25, location = ''Regal B'', notes = []\<rparr>]
              \<longrightarrow>
                utf8 (csv_text (items s))
                  = ''Artikel,Menge,Standort,Notizen'' @ [CHR 0x0D, CHR 0x0A]
                    @ ''Schraube,10,Regal A,rostfrei'' @ [CHR 0x0D, CHR 0x0A]
                    @ ''Mutter,25,Regal B,'' @ [CHR 0x0D, CHR 0x0A]
                \<and> read_back (utf8 (csv_text (items s)))
                  = Some [[''Artikel'', ''Menge'', ''Standort'', ''Notizen''],
                          [''Schraube'', ''10'', ''Regal A'', ''rostfrei''],
                          [''Mutter'', ''25'', ''Regal B'', []]]"
  proof
    assume eq: "items s =
               [\<lparr>name = ''Schraube'', quantity = IntV 10, location = ''Regal A'',
                  notes = ''rostfrei''\<rparr>,
                \<lparr>name = ''Mutter'', quantity = IntV 25, location = ''Regal B'', notes = []\<rparr>]"
    have f: "map item_fields (items s)
               = [[''Schraube'', ''10'', ''Regal A'', ''rostfrei''], [''Mutter'', ''25'', ''Regal B'', []]]"
      unfolding eq by (rule two_entries_fields)
    have b: "utf8 (csv_text (items s))
                  = ''Artikel,Menge,Standort,Notizen'' @ [CHR 0x0D, CHR 0x0A]
                    @ ''Schraube,10,Regal A,rostfrei'' @ [CHR 0x0D, CHR 0x0A]
                    @ ''Mutter,25,Regal B,'' @ [CHR 0x0D, CHR 0x0A]"
      unfolding eq by (rule two_entries_bytes)
    have r: "read_back (utf8 (csv_text (items s)))
                  = Some [[''Artikel'', ''Menge'', ''Standort'', ''Notizen''],
                          [''Schraube'', ''10'', ''Regal A'', ''rostfrei''],
                          [''Mutter'', ''25'', ''Regal B'', []]]"
      using read_back_written [of "items s"] by (simp only: f fieldnames_def)
    show "utf8 (csv_text (items s))
                  = ''Artikel,Menge,Standort,Notizen'' @ [CHR 0x0D, CHR 0x0A]
                    @ ''Schraube,10,Regal A,rostfrei'' @ [CHR 0x0D, CHR 0x0A]
                    @ ''Mutter,25,Regal B,'' @ [CHR 0x0D, CHR 0x0A]
                \<and> read_back (utf8 (csv_text (items s)))
                  = Some [[''Artikel'', ''Menge'', ''Standort'', ''Notizen''],
                          [''Schraube'', ''10'', ''Regal A'', ''rostfrei''],
                          [''Mutter'', ''25'', ''Regal B'', []]]"
      using b r by (rule conjI)
  qed
  show ?thesis using written shape rb two by (intro conjI)
qed

theorem export_csv_round_trip_witness:
  "fst (snd (export_csv
     \<lparr>items = [\<lparr>name = ''Schraube'', quantity = IntV 10, location = ''Regal A'',
                 notes = ''rostfrei''\<rparr>,
               \<lparr>name = ''Mutter'', quantity = IntV 25, location = ''Regal B'', notes = []\<rparr>],
      tree = [\<lparr>cells = (''Schraube'', ''10'', ''Regal A'', ''rostfrei''), selected = False\<rparr>,
              \<lparr>cells = (''Mutter'', ''25'', ''Regal B'', []), selected = False\<rparr>],
      name_var = [], quantity_var = ''1'', location_var = [], notes_var = []\<rparr>
     ''inventur.csv'' WriteOk Map.empty)) ''inventur.csv''
   = Some (''Artikel,Menge,Standort,Notizen'' @ [CHR 0x0D, CHR 0x0A]
          @ ''Schraube,10,Regal A,rostfrei'' @ [CHR 0x0D, CHR 0x0A]
          @ ''Mutter,25,Regal B,'' @ [CHR 0x0D, CHR 0x0A])
   \<and> read_back (''Artikel,Menge,Standort,Notizen'' @ [CHR 0x0D, CHR 0x0A]
          @ ''Schraube,10,Regal A,rostfrei'' @ [CHR 0x0D, CHR 0x0A]
          @ ''Mutter,25,Regal B,'' @ [CHR 0x0D, CHR 0x0A])
     = Some [[''Artikel'', ''Menge'', ''Standort'', ''Notizen''],
               [''Schraube'', ''10'', ''Regal A'', ''rostfrei''],
               [''Mutter'', ''25'', ''Regal B'', []]]"
proof -
  let ?s = "\<lparr>items = [\<lparr>name = ''Schraube'', quantity = IntV 10, location = ''Regal A'',
                 notes = ''rostfrei''\<rparr>,
               \<lparr>name = ''Mutter'', quantity = IntV 25, location = ''Regal B'', notes = []\<rparr>],
      tree = [\<lparr>cells = (''Schraube'', ''10'', ''Regal A'', ''rostfrei''), selected = False\<rparr>,
              \<lparr>cells = (''Mutter'', ''25'', ''Regal B'', []), selected = False\<rparr>],
      name_var = [], quantity_var = ''1'', location_var = [], notes_var = []\<rparr>"
  let ?lit = "''Artikel,Menge,Standort,Notizen'' @ [CHR 0x0D, CHR 0x0A]
          @ ''Schraube,10,Regal A,rostfrei'' @ [CHR 0x0D, CHR 0x0A]
          @ ''Mutter,25,Regal B,'' @ [CHR 0x0D, CHR 0x0A]"
  have a: "items ?s \<noteq> []" by simp
  have b: "''inventur.csv'' \<noteq> []" by simp
  note t = export_csv_round_trip [OF a b, of Map.empty]
  have i: "items ?s =
               [\<lparr>name = ''Schraube'', quantity = IntV 10, location = ''Regal A'',
                  notes = ''rostfrei''\<rparr>,
                \<lparr>name = ''Mutter'', quantity = IntV 25, location = ''Regal B'', notes = []\<rparr>]"
    by simp
  have w: "export_csv ?s ''inventur.csv'' WriteOk Map.empty
             = (?s, [''inventur.csv'' \<mapsto> utf8 (csv_text (items ?s))], Saved ''inventur.csv'')"
    using t by (rule conjunct1)
  have two: "utf8 (csv_text (items ?s)) = ?lit
             \<and> read_back (utf8 (csv_text (items ?s))) = Some [[''Artikel'', ''Menge'', ''Standort'', ''Notizen''],
               [''Schraube'', ''10'', ''Regal A'', ''rostfrei''],
               [''Mutter'', ''25'', ''Regal B'', []]]"
    using t i by blast
  have l: "utf8 (csv_text (items ?s)) = ?lit" using two by (rule conjunct1)
  have r: "read_back ?lit = Some [[''Artikel'', ''Menge'', ''Standort'', ''Notizen''],
               [''Schraube'', ''10'', ''Regal A'', ''rostfrei''],
               [''Mutter'', ''25'', ''Regal B'', []]]"
    using two by (simp only: l)
  have "fst (snd (export_csv ?s ''inventur.csv'' WriteOk Map.empty)) ''inventur.csv''
          = Some (utf8 (csv_text (items ?s)))"
    by (simp only: w) simp
  then have "fst (snd (export_csv ?s ''inventur.csv'' WriteOk Map.empty)) ''inventur.csv'' = Some ?lit"
    by (simp only: l)
  then show ?thesis using r by (rule conjI)
qed

end
